theory Spec2Isabelle
  imports Main "HOL-Library.Sublist" "HOL-Library.AList" "HOL-Library.Char_ord"
    "HOL-Library.List_Lexorder" "HOL-Library.Multiset"
begin

section \<open>Python strings\<close>

text \<open>
  Strings are \<open>char list\<close>. With \<open>Char_ord\<close> and \<open>List_Lexorder\<close> the order on strings
  is the lexicographic order by character code, which is the order Python's \<open>sorted\<close>
  uses on \<open>str\<close>.
\<close>

text \<open>
  \<open>s.partition(sep)\<close> for a non-empty \<open>sep\<close>: the text before and after the leftmost
  occurrence of \<open>sep\<close> in \<open>s\<close>, or \<open>None\<close> when \<open>sep\<close> does not occur.
\<close>

fun partition_sep :: "string \<Rightarrow> string \<Rightarrow> (string \<times> string) option" where
  "partition_sep sep [] = None"
| "partition_sep sep (c # cs) =
     (if prefix sep (c # cs) then Some ([], drop (length sep) (c # cs))
      else (case partition_sep sep cs of
              None \<Rightarrow> None
            | Some (a, b) \<Rightarrow> Some (c # a, b)))"

text \<open>
  \<open>s.split(sep, maxsplit)\<close> for a non-empty \<open>sep\<close>: at most \<open>maxsplit\<close> cuts, made
  from the left; the last element is the unsplit rest.
\<close>

fun split_max :: "nat \<Rightarrow> string \<Rightarrow> string \<Rightarrow> string list" where
  "split_max 0 sep s = [s]"
| "split_max (Suc n) sep s =
     (case partition_sep sep s of
        None \<Rightarrow> [s]
      | Some (a, b) \<Rightarrow> a # split_max n sep b)"

text \<open>
  \<open>s.split(sep)\<close> without a bound: a non-empty separator cannot be cut out of \<open>s\<close>
  more than \<open>length s\<close> times.
\<close>

definition py_split :: "string \<Rightarrow> string \<Rightarrow> string list" where
  "py_split sep s = split_max (length s) sep s"

section \<open>The cache manifest\<close>

text \<open>
  The \<open>sitemap\<close> dictionary of \<open>cache_build_map\<close>, in insertion order (a Python \<open>dict\<close>
  keeps it, and \<open>json.dumps\<close> writes it out in that order).
\<close>

type_synonym sitemap = "(string \<times> string list) list"

text \<open>\<open>sitemap.get(sitemap_key, [])\<close>\<close>

definition sitemap_get :: "sitemap \<Rightarrow> string \<Rightarrow> string list" where
  "sitemap_get sitemap k = (case map_of sitemap k of None \<Rightarrow> [] | Some l \<Rightarrow> l)"

text \<open>
  The body of the first loop, for the blob named \<open>name\<close>. \<open>split\<close> never returns an
  empty list, so \<open>[-1]\<close> and \<open>[0]\<close> are \<open>last\<close> and \<open>hd\<close> of a non-empty list.
\<close>

definition blob_filename :: "string \<Rightarrow> string" where
  "blob_filename name = last (py_split ''/'' name)"

definition blob_sitemap_key :: "string \<Rightarrow> string" where
  "blob_sitemap_key name = hd (py_split ''.'' (blob_filename name))"

definition sitemap_step :: "sitemap \<Rightarrow> string \<Rightarrow> sitemap" where
  "sitemap_step sitemap name =
     (let filename = blob_filename name in
      if filename = ''sitemap.json'' then sitemap
      else
        let sitemap_key = blob_sitemap_key name
        in AList.update sitemap_key (sitemap_get sitemap sitemap_key @ [name]) sitemap)"

text \<open>
  The second loop: every item of the dictionary is replaced by its sorted list.
\<close>

definition sitemap_sort :: "sitemap \<Rightarrow> sitemap" where
  "sitemap_sort sitemap =
     foldl (\<lambda>m (sitemap_key, snapshot_list). AList.update sitemap_key (sort snapshot_list) m)
       sitemap sitemap"

text \<open>\<open>cache_build_map\<close> on the names that \<open>list_blobs(prefix="cache")\<close> returned.\<close>

definition build_sitemap :: "string list \<Rightarrow> sitemap" where
  "build_sitemap names = sitemap_sort (foldl sitemap_step [] names)"

section \<open>Exceptions, the local file tree and the object store\<close>

text \<open>
  Every exception the modelled code can meet. \<open>TransferError\<close> stands for whatever the
  store client raises when a transfer fails, \<open>FetchError\<close> for a failed network fetch of a
  cache source, \<open>CollaboratorError\<close> for an exception of the external pipeline code.
  \<open>RuntimeError\<close> is what the web framework raises when \<open>request\<close> is used while no
  request is being served.
\<close>

datatype exn =
    AssertionError
  | KeyError
  | IndexError
  | ValueError
  | FileNotFoundError
  | FileExistsError
  | NotADirectoryError
  | IsADirectoryError
  | NotFound
  | TransferError
  | FetchError
  | CollaboratorError
  | RuntimeError

type_synonym bytes = string

text \<open>
  A \<open>pathlib.Path\<close> is the list of its components below the root. The local file
  system maps paths to entries; the root is always a directory. Names are taken as they
  are: the model does not resolve a \<open>..\<close> component.
\<close>

type_synonym path = "string list"

datatype node = File bytes | Dir

type_synonym filesystem = "(path \<times> node) list"

text \<open>
  One call of a transfer method of the store client: the bucket, the blob name and the
  local file, for \<open>blob.download_to_filename\<close>, \<open>blob.upload_from_filename\<close> and
  \<open>blob.upload_from_string\<close>.
\<close>

datatype store_op =
    Download string string path
  | Upload string string path
  | UploadString string string

text \<open>
  The state the program runs in. \<open>calls\<close> is the history of transfer attempts, \<open>stderr\<close>
  the exceptions printed there. \<open>flaky op n\<close> tells whether the attempt of \<open>op\<close> that
  follows \<open>n\<close> earlier attempts of the same \<open>op\<close> fails in the store; \<open>web\<close> is what a
  network fetch of a URL returns (\<open>None\<close>: the fetch raises). Output on \<open>stdout\<close> is not
  modelled.
\<close>

record world =
  environ :: "string \<rightharpoonup> string"
  buckets :: "string \<Rightarrow> (string \<times> bytes) list"
  fs :: filesystem
  web :: "string \<rightharpoonup> bytes"
  flaky :: "store_op \<Rightarrow> nat \<Rightarrow> bool"
  calls :: "store_op list"
  stderr :: "exn list"

type_synonym 'a action = "world \<Rightarrow> (exn + 'a) \<times> world"

text \<open>Sequencing: an exception skips the rest, the effects made so far stay.\<close>

definition seq :: "'a action \<Rightarrow> ('a \<Rightarrow> 'b action) \<Rightarrow> 'b action" where
  "seq m f w = (case m w of (Inl e, w') \<Rightarrow> (Inl e, w') | (Inr x, w') \<Rightarrow> f x w')"

definition raise :: "exn \<Rightarrow> 'a action" where
  "raise e w = (Inl e, w)"

definition return :: "'a \<Rightarrow> 'a action" where
  "return x w = (Inr x, w)"

subsection \<open>Paths\<close>

text \<open>
  \<open>folder / s\<close> for a string \<open>s\<close>: empty and \<open>.\<close> components are dropped, and a string
  that starts with a slash replaces the folder.
\<close>

definition path_parts :: "string \<Rightarrow> path" where
  "path_parts s = filter (\<lambda>c. c \<noteq> [] \<and> c \<noteq> ''.'') (py_split ''/'' s)"

definition path_join :: "path \<Rightarrow> string \<Rightarrow> path" where
  "path_join folder s =
     (if s \<noteq> [] \<and> hd s = CHR ''/'' then path_parts s else folder @ path_parts s)"

text \<open>\<open>file_path.relative_to(local_folder)\<close>\<close>

definition relative_to :: "path \<Rightarrow> path \<Rightarrow> exn + path" where
  "relative_to file_path local_folder =
     (if prefix local_folder file_path then Inr (drop (length local_folder) file_path)
      else Inl ValueError)"

text \<open>The string of a relative path: its components joined by slashes, \<open>.\<close> when empty.\<close>

fun fspath :: "path \<Rightarrow> string" where
  "fspath [] = ''.''"
| "fspath [c] = c"
| "fspath (c # cs) = c @ ''/'' @ fspath cs"

text \<open>\<open>os.path.join(a, b)\<close> for two strings.\<close>

definition os_path_join :: "string \<Rightarrow> string \<Rightarrow> string" where
  "os_path_join a b =
     (if b \<noteq> [] \<and> hd b = CHR ''/'' then b
      else if a = [] \<or> last a = CHR ''/'' then a @ b
      else a @ ''/'' @ b)"

subsection \<open>The local file system\<close>

definition is_dir :: "filesystem \<Rightarrow> path \<Rightarrow> bool" where
  "is_dir t p \<longleftrightarrow> p = [] \<or> map_of t p = Some Dir"

definition exists :: "filesystem \<Rightarrow> path \<Rightarrow> bool" where
  "exists t p \<longleftrightarrow> p = [] \<or> map_of t p \<noteq> None"

text \<open>
  \<open>p.mkdir(parents=True, exist_ok=True)\<close>: an existing directory is accepted, an existing
  file raises; a missing parent is created first, a parent that is a file raises.
\<close>

function mkdir_parents :: "filesystem \<Rightarrow> path \<Rightarrow> exn + filesystem" where
  "mkdir_parents t p =
     (if exists t p then (if is_dir t p then Inr t else Inl FileExistsError)
      else if is_dir t (butlast p) then Inr (t @ [(p, Dir)])
      else if exists t (butlast p) then Inl NotADirectoryError
      else (case mkdir_parents t (butlast p) of
              Inl e \<Rightarrow> Inl e
            | Inr t' \<Rightarrow> Inr (t' @ [(p, Dir)])))"
  by pat_completeness auto
termination
  by (relation "measure (\<lambda>(t, p). length p)") (auto simp: exists_def)

declare mkdir_parents.simps [simp del]

text \<open>Opening \<open>p\<close> for writing and writing \<open>data\<close>: the file is created or replaced.\<close>

definition write_file :: "filesystem \<Rightarrow> path \<Rightarrow> bytes \<Rightarrow> exn + filesystem" where
  "write_file t p data =
     (if is_dir t p then Inl IsADirectoryError
      else if \<not> is_dir t (butlast p) then
        (if exists t (butlast p) then Inl NotADirectoryError else Inl FileNotFoundError)
      else Inr (AList.update p (File data) t))"

text \<open>Opening \<open>p\<close> for reading and reading it whole.\<close>

definition read_file :: "filesystem \<Rightarrow> path \<Rightarrow> exn + bytes" where
  "read_file t p =
     (if is_dir t p then Inl IsADirectoryError
      else (case map_of t p of
              Some (File data) \<Rightarrow> Inr data
            | _ \<Rightarrow> Inl FileNotFoundError))"

text \<open>
  \<open>local_folder.glob("**/*.*")\<close>: every entry below \<open>local_folder\<close>, at any depth, file or
  directory, whose name matches \<open>*.*\<close>, that is, contains a dot.
\<close>

definition glob_dotted :: "filesystem \<Rightarrow> path \<Rightarrow> path list" where
  "glob_dotted t local_folder =
     map fst (filter (\<lambda>(p, n). strict_prefix local_folder p \<and> CHR ''.'' \<in> set (last p)) t)"

text \<open>
  \<open>TemporaryDirectory()\<close>: a new directory with a name no entry of the tree uses (the
  directory of temporary files is taken to be the root), removed with all it holds when the
  \<open>with\<close> block is left, normally or by an exception.
\<close>

definition fresh_name :: "filesystem \<Rightarrow> string" where
  "fresh_name t =
     ''tmp'' @ replicate (Suc (foldr max (map length (concat (map fst t))) 0)) CHR ''_''"

definition rmtree :: "path \<Rightarrow> filesystem \<Rightarrow> filesystem" where
  "rmtree d t = filter (\<lambda>(p, n). \<not> prefix d p) t"

definition with_TemporaryDirectory :: "(path \<Rightarrow> 'a action) \<Rightarrow> 'a action" where
  "with_TemporaryDirectory body w =
     (let workdir = [fresh_name (fs w)];
          (r, w') = body workdir (w\<lparr>fs := fs w @ [(workdir, Dir)]\<rparr>)
      in (r, w'\<lparr>fs := rmtree workdir (fs w')\<rparr>))"

text \<open>An action on the file tree alone.\<close>

definition on_fs :: "(filesystem \<Rightarrow> exn + filesystem) \<Rightarrow> unit action" where
  "on_fs f w = (case f (fs w) of Inl e \<Rightarrow> (Inl e, w) | Inr t \<Rightarrow> (Inr (), w\<lparr>fs := t\<rparr>))"

subsection \<open>The object store\<close>

text \<open>
  \<open>get_storage_bucket\<close>: the bucket name given, or else the one of the environment; none
  at all fails the assertion. (Creating the client has no effect that is modelled.)
\<close>

definition get_storage_bucket :: "string \<Rightarrow> world \<Rightarrow> exn + string" where
  "get_storage_bucket bucket_name w =
     (case (if bucket_name \<noteq> [] then Some bucket_name else environ w ''GCS_BUCKET_NAME'') of
        None \<Rightarrow> Inl AssertionError
      | Some b \<Rightarrow> Inr b)"

text \<open>\<open>bucket.list_blobs(prefix=...)\<close>: the names of the objects that start with the prefix.\<close>

definition list_blobs :: "world \<Rightarrow> string \<Rightarrow> string \<Rightarrow> string list" where
  "list_blobs w bucket pre = filter (prefix pre) (map fst (buckets w bucket))"

definition put_blob :: "string \<Rightarrow> string \<Rightarrow> bytes \<Rightarrow> world \<Rightarrow> world" where
  "put_blob bucket name data w =
     w\<lparr>buckets := (buckets w)(bucket := AList.update name data (buckets w bucket))\<rparr>"

definition attempt :: "store_op \<Rightarrow> world \<Rightarrow> world" where
  "attempt op w = w\<lparr>calls := calls w @ [op]\<rparr>"

definition fails :: "world \<Rightarrow> store_op \<Rightarrow> bool" where
  "fails w op \<longleftrightarrow> flaky w op (count_list (calls w) op)"

text \<open>
  The three transfer methods of a blob. Each call is one attempt.
  \<open>download_to_filename\<close> opens the local file for writing before it asks the store: the
  file is created, or emptied if it was there, and an attempt that raises after that leaves
  it empty. \<open>upload_from_filename\<close> reads the local file before it sends it; an upload
  is all or nothing: an attempt that raises leaves the bucket as it was.
\<close>

definition download_to_filename :: "string \<Rightarrow> string \<Rightarrow> path \<Rightarrow> unit action" where
  "download_to_filename bucket name file_path w =
     (let op = Download bucket name file_path; w1 = attempt op w in
      case write_file (fs w) file_path [] of
        Inl e \<Rightarrow> (Inl e, w1)
      | Inr opened \<Rightarrow>
          if fails w op then (Inl TransferError, w1\<lparr>fs := opened\<rparr>)
          else (case map_of (buckets w bucket) name of
                  None \<Rightarrow> (Inl NotFound, w1\<lparr>fs := opened\<rparr>)
                | Some data \<Rightarrow>
                    (Inr (), w1\<lparr>fs := AList.update file_path (File data) opened\<rparr>)))"

definition upload_from_filename :: "string \<Rightarrow> string \<Rightarrow> path \<Rightarrow> unit action" where
  "upload_from_filename bucket name file_path w =
     (let op = Upload bucket name file_path; w1 = attempt op w in
      case read_file (fs w) file_path of
        Inl e \<Rightarrow> (Inl e, w1)
      | Inr data \<Rightarrow>
          if fails w op then (Inl TransferError, w1)
          else (Inr (), put_blob bucket name data w1))"


section \<open>Folder synchronisation\<close>

definition BLOB_OP_MAX_RETRIES :: nat where
  "BLOB_OP_MAX_RETRIES = 3"

text \<open>
  The retry loop shared by \<open>_download_blob\<close> and \<open>_upload_file\<close>: up to
  \<open>BLOB_OP_MAX_RETRIES\<close> rounds; a round that returns ends the loop, a round that raises
  an \<open>Exception\<close> has it printed on \<open>stderr\<close> and the next round follows. The function
  returns \<open>None\<close> either way, so the result is only the state.
\<close>

fun retry :: "nat \<Rightarrow> unit action \<Rightarrow> world \<Rightarrow> world" where
  "retry 0 op w = w"
| "retry (Suc n) op w =
     (case op w of
        (Inr _, w') \<Rightarrow> w'
      | (Inl exc, w') \<Rightarrow> retry n op (w'\<lparr>stderr := stderr w' @ [exc]\<rparr>))"

text \<open>
  Modelled from the spec: \<open>thread_map\<close> of \<open>lib.concurrent\<close>, which is not among the
  sources. Every task is run (the call waits for all of them and never stops early); the
  tasks are taken one after the other in the order of the list, and consuming the results
  raises the first exception a task raised.
\<close>

fun thread_map :: "('a \<Rightarrow> unit action) \<Rightarrow> 'a list \<Rightarrow> unit action" where
  "thread_map f [] w = (Inr (), w)"
| "thread_map f (x # xs) w =
     (case f x w of
        (r, w') \<Rightarrow>
          (case thread_map f xs w' of
             (rs, w'') \<Rightarrow> ((case r of Inl e \<Rightarrow> Inl e | Inr _ \<Rightarrow> rs), w'')))"

definition download_blob :: "string \<Rightarrow> string \<Rightarrow> path \<Rightarrow> string \<Rightarrow> unit action" where
  "download_blob bucket remote_path local_folder name w =
     (let rel_path = last (split_max 2 (remote_path @ ''/'') name);
          file_path = path_join local_folder rel_path
      in case mkdir_parents (fs w) (butlast file_path) of
           Inl e \<Rightarrow> (Inl e, w)
         | Inr t \<Rightarrow>
             (Inr (), retry BLOB_OP_MAX_RETRIES (download_to_filename bucket name file_path)
                        (w\<lparr>fs := t\<rparr>)))"

definition download_folder :: "string \<Rightarrow> string \<Rightarrow> path \<Rightarrow> unit action" where
  "download_folder bucket_name remote_path local_folder w =
     (case get_storage_bucket bucket_name w of
        Inl e \<Rightarrow> (Inl e, w)
      | Inr bucket \<Rightarrow>
          thread_map (download_blob bucket remote_path local_folder)
            (list_blobs w bucket remote_path) w)"

definition upload_file :: "string \<Rightarrow> path \<Rightarrow> string \<Rightarrow> path \<Rightarrow> unit action" where
  "upload_file bucket local_folder remote_path file_path w =
     (case relative_to file_path local_folder of
        Inl e \<Rightarrow> (Inl e, w)
      | Inr target_path \<Rightarrow>
          (Inr (), retry BLOB_OP_MAX_RETRIES
                     (upload_from_filename bucket (os_path_join remote_path (fspath target_path))
                        file_path) w))"

definition upload_folder :: "string \<Rightarrow> string \<Rightarrow> path \<Rightarrow> unit action" where
  "upload_folder bucket_name remote_path local_folder w =
     (case get_storage_bucket bucket_name w of
        Inl e \<Rightarrow> (Inl e, w)
      | Inr bucket \<Rightarrow>
          thread_map (upload_file bucket local_folder remote_path)
            (glob_dotted (fs w) local_folder) w)"

section \<open>What the stages take from outside\<close>

text \<open>
  The pipeline object that \<open>DataPipeline.load\<close> returns (\<open>lib.pipeline\<close> is not among the
  sources): its list of data sources and its methods, which read that list and act on the
  state in ways this file does not fix.
\<close>

record ('s, 'r, 't) pipeline =
  data_sources :: "'s list"
  parse :: "'s list \<Rightarrow> path \<Rightarrow> 'r action"
  save_intermediate_results :: "'s list \<Rightarrow> path \<Rightarrow> 'r \<Rightarrow> unit action"
  load_intermediate_results :: "'s list \<Rightarrow> path \<Rightarrow> 's list \<Rightarrow> 'r action"
  combine :: "'s list \<Rightarrow> 'r \<Rightarrow> 't action"

text \<open>
  The constants and helpers imported from modules that are not among the sources, and the
  surroundings of one invocation: the query parameters of the request being served
  (\<open>request.args\<close>), or \<open>None\<close> when the handler is not called for a request but from the
  command line (the dispatch under \<open>__main__\<close>), the hour stamp
  \<open>utcnow().strftime("%Y-%m-%d-%H")\<close>, the parsed \<open>cache/config.json\<close> (a list of
  dictionaries), \<open>json.dumps\<close> on a sitemap, and the bytes \<open>export_csv\<close> writes for a table.
\<close>

record ('s, 'r, 't) env =
  GCS_BUCKET_TEST :: string
  get_table_names :: "string list"
  safe_int_cast :: "string option \<Rightarrow> int option"
  DataPipeline_load :: "string \<Rightarrow> exn + ('s, 'r, 't) pipeline"
  export_csv :: "'t \<Rightarrow> bytes"
  cache_config :: "(string \<times> string) list list"
  json_dumps :: "sitemap \<Rightarrow> bytes"
  request_args :: "(string \<rightharpoonup> string) option"
  utcnow_hour :: string

section \<open>The stages\<close>

definition cache_build_map :: "('s, 'r, 't) env \<Rightarrow> sitemap action" where
  "cache_build_map ctx w =
     (case get_storage_bucket (GCS_BUCKET_TEST ctx) w of
        Inl e \<Rightarrow> (Inl e, w)
      | Inr bucket \<Rightarrow> (Inr (build_sitemap (list_blobs w bucket ''cache'')), w))"




text \<open>
  \<open>request.args.get(key)\<close>: outside a request the use of \<open>request\<close> raises.
\<close>

definition request_args_get :: "('s, 'r, 't) env \<Rightarrow> string \<Rightarrow> exn + string option" where
  "request_args_get ctx key =
     (case request_args ctx of
        None \<Rightarrow> Inl RuntimeError
      | Some args \<Rightarrow> Inr (args key))"

text \<open>\<open>safe_int_cast(request.args.get("idx"))\<close>\<close>

definition request_idx :: "('s, 'r, 't) env \<Rightarrow> exn + int option" where
  "request_idx ctx =
     (case request_args_get ctx ''idx'' of
        Inl e \<Rightarrow> Inl e
      | Inr s \<Rightarrow> Inr (safe_int_cast ctx s))"

text \<open>
  \<open>a or b\<close> on an optional value, \<open>b\<close> given as what its evaluation returns or raises:
  \<open>b\<close> is evaluated only when \<open>a\<close> is \<open>None\<close> or falsy (the empty string, the integer 0).
\<close>

definition py_or :: "('a \<Rightarrow> bool) \<Rightarrow> 'a option \<Rightarrow> exn + 'a option \<Rightarrow> exn + 'a option" where
  "py_or falsy a b =
     (case a of
        None \<Rightarrow> b
      | Some x \<Rightarrow> if falsy x then b else Inr (Some x))"

text \<open>\<open>xs[i]\<close>: a negative index counts from the end, an index out of range raises.\<close>

definition py_index :: "'a list \<Rightarrow> int \<Rightarrow> exn + 'a" where
  "py_index xs i =
     (if 0 \<le> i \<and> i < int (length xs) then Inr (xs ! nat i)
      else if i < 0 \<and> - i \<le> int (length xs) then Inr (xs ! nat (int (length xs) + i))
      else Inl IndexError)"

text \<open>\<open>table_name.replace("-", "_")\<close>\<close>

definition pipeline_name :: "string \<Rightarrow> string" where
  "pipeline_name table_name = map (\<lambda>c. if c = CHR ''-'' then CHR ''_'' else c) table_name"

definition lift :: "exn + 'a \<Rightarrow> 'a action" where
  "lift r w = (r, w)"

text \<open>The sources \<open>parse\<close> works on: all of them, or the one selected by the index.\<close>

definition limit_sources :: "'s list \<Rightarrow> int option \<Rightarrow> exn + 's list" where
  "limit_sources sources idx =
     (case idx of
        None \<Rightarrow> Inr sources
      | Some i \<Rightarrow> (case py_index sources i of Inl e \<Rightarrow> Inl e | Inr s \<Rightarrow> Inr [s]))"

text \<open>The block under \<open>with TemporaryDirectory() as output_folder\<close> of \<open>update_table\<close>.\<close>

definition update_table_stage ::
  "('s, 'r, 't) env \<Rightarrow> string \<Rightarrow> int option \<Rightarrow> path \<Rightarrow> string action" where
  "update_table_stage ctx table_name idx output_folder =
     seq (on_fs (\<lambda>t. mkdir_parents t (path_join output_folder ''snapshot''))) (\<lambda>_.
     seq (on_fs (\<lambda>t. mkdir_parents t (path_join output_folder ''intermediate''))) (\<lambda>_.
     seq (lift (DataPipeline_load ctx (pipeline_name table_name))) (\<lambda>data_pipeline.
     seq (lift (limit_sources (data_sources data_pipeline) idx)) (\<lambda>sources.
     seq (parse data_pipeline sources output_folder) (\<lambda>intermediate_results.
     seq (save_intermediate_results data_pipeline sources
            (path_join output_folder ''intermediate'') intermediate_results) (\<lambda>_.
     seq (upload_folder (GCS_BUCKET_TEST ctx) ''snapshot''
            (path_join output_folder ''snapshot'')) (\<lambda>_.
     seq (upload_folder (GCS_BUCKET_TEST ctx) ''intermediate''
            (path_join output_folder ''intermediate'')) (\<lambda>_.
     return ''OK''))))))))"

definition update_table ::
  "('s, 'r, 't) env \<Rightarrow> string option \<Rightarrow> int option \<Rightarrow> string action" where
  "update_table ctx table_name idx =
     seq (lift (py_or (\<lambda>s. s = []) table_name (request_args_get ctx ''table''))) (\<lambda>table_name.
     seq (lift (py_or (\<lambda>i. i = 0) idx (request_idx ctx))) (\<lambda>idx.
     case table_name of
       None \<Rightarrow> raise AssertionError
     | Some name \<Rightarrow>
         if name \<notin> set (get_table_names ctx) then raise AssertionError
         else with_TemporaryDirectory (update_table_stage ctx name idx)))"

text \<open>The block under \<open>with TemporaryDirectory() as output_folder\<close> of \<open>combine_table\<close>.\<close>

definition combine_table_stage ::
  "('s, 'r, 't) env \<Rightarrow> string \<Rightarrow> path \<Rightarrow> string action" where
  "combine_table_stage ctx table_name output_folder =
     seq (on_fs (\<lambda>t. mkdir_parents t (path_join output_folder ''tables''))) (\<lambda>_.
     seq (download_folder (GCS_BUCKET_TEST ctx) ''intermediate''
            (path_join output_folder ''intermediate'')) (\<lambda>_.
     seq (lift (DataPipeline_load ctx (pipeline_name table_name))) (\<lambda>data_pipeline.
     seq (load_intermediate_results data_pipeline (data_sources data_pipeline)
            (path_join output_folder ''intermediate'') (data_sources data_pipeline))
         (\<lambda>intermediate_results.
     seq (combine data_pipeline (data_sources data_pipeline) intermediate_results)
         (\<lambda>pipeline_output.
     seq (on_fs (\<lambda>t. write_file t
            (path_join (path_join output_folder ''tables'') (table_name @ ''.csv''))
            (export_csv ctx pipeline_output))) (\<lambda>_.
     seq (upload_folder (GCS_BUCKET_TEST ctx) ''tables''
            (path_join output_folder ''tables'')) (\<lambda>_.
     return ''OK'')))))))"

definition combine_table :: "('s, 'r, 't) env \<Rightarrow> string option \<Rightarrow> string action" where
  "combine_table ctx table_name =
     seq (lift (py_or (\<lambda>s. s = []) table_name (request_args_get ctx ''table''))) (\<lambda>table_name.
     case table_name of
       None \<Rightarrow> raise AssertionError
     | Some name \<Rightarrow>
         if name \<notin> set (get_table_names ctx) then raise AssertionError
         else with_TemporaryDirectory (combine_table_stage ctx name))"
definition manifest_members :: "string list \<Rightarrow> string \<Rightarrow> string list" where
  "manifest_members names k =
     filter (\<lambda>n. blob_filename n \<noteq> ''sitemap.json'' \<and> blob_sitemap_key n = k) names"

definition quiet_world :: world where
  "quiet_world =
     \<lparr>environ = Map.empty, buckets = (\<lambda>_. []), fs = [], web = Map.empty,
      flaky = (\<lambda>_ _. False), calls = [], stderr = []\<rparr>"

definition demo_env :: "(nat, nat, nat) env" where
  "demo_env =
     \<lparr>GCS_BUCKET_TEST = ''test'', get_table_names = [''epidemiology'', ''by-age''],
      safe_int_cast = (\<lambda>_. None),
      DataPipeline_load = (\<lambda>_. Inl CollaboratorError), export_csv = (\<lambda>_. []),
      cache_config = [], json_dumps = (\<lambda>m. concat (map fst m)),
      request_args = Some Map.empty, utcnow_hour = ''2020-05-01-13''\<rparr>"

definition manifest_world :: world where
  "manifest_world =
     quiet_world\<lparr>buckets := (\<lambda>_. [(''cache/covid19.2021-05-01.csv'', ''a''),
        (''cache/noextension'', ''b''), (''cache/x.2'', ''c''), (''cache/x.10'', ''d''),
        (''cache/x.1'', ''e'')])\<rparr>"

definition sitemap_world :: world where
  "sitemap_world =
     quiet_world\<lparr>buckets := (\<lambda>_. [(''cache/sitemap'', ''a''),
        (''cache/2020-05-01-13/sitemap.json'', ''b''), (''cache/a.csv'', ''c'')])\<rparr>"

text \<open>
  A pipeline for the examples: \<open>parse\<close> leaves one snapshot file, as long as the sum of the
  data sources it was given, the save step one intermediate file, whatever the table.
\<close>

definition demo_pipeline :: "(nat, nat, nat) pipeline" where
  "demo_pipeline =
     \<lparr>data_sources = [1, 2],
      parse = (\<lambda>sources output_folder w.
        (Inr (length sources),
         w\<lparr>fs := fs w @ [(output_folder @ [''snapshot'', ''data.csv''],
                           File (replicate (sum_list sources) CHR ''x''))]\<rparr>)),
      save_intermediate_results = (\<lambda>sources folder results w.
        (Inr (), w\<lparr>fs := fs w @ [(folder @ [''source.csv''], File ''parsed'')]\<rparr>)),
      load_intermediate_results = (\<lambda>sources folder wanted w. (Inr (length wanted), w)),
      combine = (\<lambda>sources results w. (Inr results, w))\<rparr>"

definition pipeline_env :: "(nat, nat, nat) env" where
  "pipeline_env = demo_env\<lparr>DataPipeline_load := (\<lambda>_. Inr demo_pipeline)\<rparr>"

text \<open>
  The surroundings of a call from the command line, where no request is being served, and
  those of a request with the given query parameters.
\<close>

definition cli_env :: "(nat, nat, nat) env" where
  "cli_env = pipeline_env\<lparr>request_args := None\<rparr>"

definition request_env :: "(string \<times> string) list \<Rightarrow> (nat, nat, nat) env" where
  "request_env params =
     pipeline_env\<lparr>
       safe_int_cast := (\<lambda>s. if s = Some ''0'' then Some 0
                              else if s = Some ''1'' then Some 1 else None),
       request_args := Some (map_of params)\<rparr>"

section \<open>Notions the statements use\<close>


text \<open>The blob name \<open>_upload_file\<close> sends the local file \<open>file_path\<close> to.\<close>

definition remote_key :: "string \<Rightarrow> path \<Rightarrow> path \<Rightarrow> string" where
  "remote_key remote_path local_folder file_path =
     os_path_join remote_path (fspath (drop (length local_folder) file_path))"

text \<open>The content of the regular file at a path, if there is one.\<close>

definition file_at :: "filesystem \<Rightarrow> path \<Rightarrow> bytes option" where
  "file_at t p = (case map_of t p of Some (File data) \<Rightarrow> Some data | _ \<Rightarrow> None)"

text \<open>One upload task and one download task with their retries, after the path arithmetic.\<close>

definition upload_round :: "string \<Rightarrow> string \<Rightarrow> path \<Rightarrow> path \<Rightarrow> world \<Rightarrow> world" where
  "upload_round bucket remote_path local_folder q =
     retry BLOB_OP_MAX_RETRIES
       (upload_from_filename bucket (remote_key remote_path local_folder q) q)"

text \<open>
  A name a file or directory can have, and a well-formed tree: no path is listed twice,
  every component is such a name, and every entry lies in a directory.
\<close>

definition valid_name :: "string \<Rightarrow> bool" where
  "valid_name c \<longleftrightarrow> c \<noteq> [] \<and> CHR ''/'' \<notin> set c \<and> c \<noteq> ''.'' \<and> c \<noteq> ''..''"

definition well_formed :: "filesystem \<Rightarrow> bool" where
  "well_formed t \<longleftrightarrow>
     distinct (map fst t) \<and>
     (\<forall>p \<in> fst ` set t. p \<noteq> [] \<and> (\<forall>c \<in> set p. valid_name c) \<and> is_dir t (butlast p))"

text \<open>What \<open>glob("**/*.*")\<close> selects below a folder.\<close>

definition dotted_below :: "path \<Rightarrow> path \<Rightarrow> bool" where
  "dotted_below local_folder p \<longleftrightarrow> strict_prefix local_folder p \<and> CHR ''.'' \<in> set (last p)"



text \<open>A folder with a dotted file, two files without a dot and a subfolder.\<close>

definition dotless_world :: world where
  "dotless_world =
     quiet_world\<lparr>
       fs := [([''src''], Dir), ([''src'', ''a.txt''], File ''A''),
              ([''src'', ''noext''], File ''N''), ([''src'', ''sub''], Dir),
              ([''src'', ''sub'', ''Makefile''], File ''M'')]\<rparr>"








section \<open>Facts about splitting strings\<close>

lemma takeWhile_neq_notin: "c \<notin> set s \<Longrightarrow> takeWhile (\<lambda>x. x \<noteq> c) s = s"
  by (induction s) auto

lemma partition_sep_char:
  "partition_sep [c] s =
     (if c \<in> set s then Some (takeWhile (\<lambda>x. x \<noteq> c) s, tl (dropWhile (\<lambda>x. x \<noteq> c) s)) else None)"
  by (induction s) auto

lemma hd_split_max_char:
  "0 < n \<or> c \<notin> set s \<Longrightarrow> hd (split_max n [c] s) = takeWhile (\<lambda>x. x \<noteq> c) s"
  by (cases n) (auto simp: partition_sep_char takeWhile_neq_notin)

lemma hd_py_split_char: "hd (py_split [c] s) = takeWhile (\<lambda>x. x \<noteq> c) s"
  unfolding py_split_def by (rule hd_split_max_char) (cases s; simp)

lemma split_max_nonempty: "split_max n sep s \<noteq> []"
  by (cases n) (auto split: option.splits)

lemma length_tl_dropWhile: "c \<in> set s \<Longrightarrow> length (tl (dropWhile P s)) < length s"
proof -
  assume "c \<in> set s"
  then have "s \<noteq> []" by auto
  have "length (dropWhile P s) \<le> length s" by (rule length_dropWhile_le)
  moreover have "length (tl (dropWhile P s)) = length (dropWhile P s) - 1" by simp
  ultimately show ?thesis using \<open>s \<noteq> []\<close> by (cases s) auto
qed

lemma rev_takeWhile_rev_split:
  "c \<in> set s \<Longrightarrow>
     rev (takeWhile (\<lambda>x. x \<noteq> c) (rev s)) =
     rev (takeWhile (\<lambda>x. x \<noteq> c) (rev (tl (dropWhile (\<lambda>x. x \<noteq> c) s))))"
proof (induction s)
  case Nil
  then show ?case by simp
next
  case (Cons a s)
  show ?case
  proof (cases "a = c")
    case True
    then show ?thesis by (auto simp: takeWhile_append takeWhile_neq_notin)
  next
    case False
    with Cons have "c \<in> set s" by simp
    with Cons.IH False show ?thesis
      by (auto simp: takeWhile_append)
  qed
qed

lemma last_split_max_char:
  "length s \<le> n \<Longrightarrow> last (split_max n [c] s) = rev (takeWhile (\<lambda>x. x \<noteq> c) (rev s))"
proof (induction n arbitrary: s)
  case 0
  then show ?case by simp
next
  case (Suc n)
  show ?case
  proof (cases "c \<in> set s")
    case False
    then show ?thesis
      by (simp add: partition_sep_char takeWhile_neq_notin)
  next
    case True
    let ?b = "tl (dropWhile (\<lambda>x. x \<noteq> c) s)"
    have "length ?b < length s" using True by (rule length_tl_dropWhile)
    with Suc.prems have "length ?b \<le> n" by simp
    from Suc.IH[OF this] True show ?thesis
      by (simp add: partition_sep_char split_max_nonempty rev_takeWhile_rev_split[OF True])
  qed
qed

lemma blob_filename_eq: "blob_filename name = rev (takeWhile (\<lambda>x. x \<noteq> CHR ''/'') (rev name))"
  unfolding blob_filename_def py_split_def by (rule last_split_max_char) simp

lemma blob_sitemap_key_eq:
  "blob_sitemap_key name = takeWhile (\<lambda>x. x \<noteq> CHR ''.'') (blob_filename name)"
  unfolding blob_sitemap_key_def by (rule hd_py_split_char)


section \<open>The cache manifest: key derivation, order, exclusion\<close>

lemma update_at_first_key:
  "k \<notin> fst ` set xs \<Longrightarrow> AList.update k v (xs @ (k, u) # ys) = xs @ (k, v) # ys"
  by (induction xs) auto

lemma foldl_update_sort:
  "distinct (map fst (xs @ ys)) \<Longrightarrow>
     foldl (\<lambda>m (k, l). AList.update k (sort l) m) (map (\<lambda>(k, l). (k, sort l)) xs @ ys) ys =
     map (\<lambda>(k, l). (k, sort l)) (xs @ ys)"
proof (induction ys arbitrary: xs)
  case Nil
  then show ?case by simp
next
  case (Cons y ys)
  obtain k l where y: "y = (k, l)" by (cases y)
  let ?g = "\<lambda>(k, l). (k, sort l)"
  from Cons.prems y have fresh: "k \<notin> fst ` set (map ?g xs)"
    by (auto simp: image_iff)
  have step: "AList.update k (sort l) (map ?g xs @ (k, l) # ys) = map ?g (xs @ [y]) @ ys"
    using update_at_first_key[OF fresh] y by simp
  from Cons.prems have "distinct (map fst ((xs @ [y]) @ ys))" by simp
  from Cons.IH[OF this] step y show ?case by simp
qed

lemma sitemap_sort_map:
  "distinct (map fst m) \<Longrightarrow> sitemap_sort m = map (\<lambda>(k, l). (k, sort l)) m"
  unfolding sitemap_sort_def using foldl_update_sort[of "[]" m] by simp

lemma distinct_sitemap_step: "distinct (map fst m) \<Longrightarrow> distinct (map fst (sitemap_step m n))"
  by (simp add: sitemap_step_def Let_def distinct_update)

lemma distinct_foldl_sitemap_step:
  "distinct (map fst m) \<Longrightarrow> distinct (map fst (foldl sitemap_step m names))"
  by (induction names arbitrary: m) (simp_all add: distinct_sitemap_step)

lemma map_of_sitemap_step:
  "map_of (sitemap_step m n) =
     (if blob_filename n = ''sitemap.json'' then map_of m
      else (map_of m)(blob_sitemap_key n \<mapsto> sitemap_get m (blob_sitemap_key n) @ [n]))"
  by (simp add: sitemap_step_def Let_def update_conv')

lemma sitemap_get_step:
  "sitemap_get (sitemap_step m n) k =
     (if blob_filename n \<noteq> ''sitemap.json'' \<and> blob_sitemap_key n = k then sitemap_get m k @ [n]
      else sitemap_get m k)"
  by (simp add: sitemap_get_def map_of_sitemap_step)

lemma manifest_members_Cons:
  "manifest_members (n # names) k =
     (if blob_filename n \<noteq> ''sitemap.json'' \<and> blob_sitemap_key n = k
      then n # manifest_members names k else manifest_members names k)"
  by (simp add: manifest_members_def)

lemma map_of_foldl_sitemap_step:
  "map_of (foldl sitemap_step m names) k =
     (if map_of m k = None \<and> manifest_members names k = [] then None
      else Some (sitemap_get m k @ manifest_members names k))"
proof (induction names arbitrary: m)
  case Nil
  then show ?case by (auto simp: manifest_members_def sitemap_get_def)
next
  case (Cons n names)
  show ?case
    by (simp add: Cons.IH map_of_sitemap_step sitemap_get_step manifest_members_Cons)
qed

lemma map_of_build_sitemap:
  "map_of (build_sitemap names) k =
     (if manifest_members names k = [] then None else Some (sort (manifest_members names k)))"
proof -
  have d: "distinct (map fst (foldl sitemap_step [] names))"
    by (rule distinct_foldl_sitemap_step) simp
  show ?thesis
    unfolding build_sitemap_def sitemap_sort_map[OF d]
    by (simp add: map_of_foldl_sitemap_step sitemap_get_def map_of_map)
qed

lemma mset_sitemap_update:
  "mset (concat (map snd (AList.update k (sitemap_get m k @ [n]) m))) =
     mset (concat (map snd m)) + {#n#}"
  by (induction m) (auto simp: sitemap_get_def)

lemma mset_foldl_sitemap_step:
  "mset (concat (map snd (foldl sitemap_step m names))) =
     mset (concat (map snd m)) + mset (filter (\<lambda>n. blob_filename n \<noteq> ''sitemap.json'') names)"
proof (induction names arbitrary: m)
  case Nil
  then show ?case by simp
next
  case (Cons n names)
  show ?case
    by (simp add: Cons.IH) (simp add: sitemap_step_def Let_def mset_sitemap_update)
qed

lemma mset_build_sitemap:
  "mset (concat (map snd (build_sitemap names))) =
     mset (filter (\<lambda>n. blob_filename n \<noteq> ''sitemap.json'') names)"
proof -
  have d: "distinct (map fst (foldl sitemap_step [] names))"
    by (rule distinct_foldl_sitemap_step) simp
  have "mset (concat (map snd (map (\<lambda>(k, l). (k, sort l)) m))) = mset (concat (map snd m))" for m :: sitemap
    by (induction m) auto
  then show ?thesis
    unfolding build_sitemap_def sitemap_sort_map[OF d]
    by (simp add: mset_foldl_sitemap_step)
qed

lemma sorted_build_sitemap: "(k, l) \<in> set (build_sitemap names) \<Longrightarrow> sorted l"
proof -
  have d: "distinct (map fst (foldl sitemap_step [] names))"
    by (rule distinct_foldl_sitemap_step) simp
  show "(k, l) \<in> set (build_sitemap names) \<Longrightarrow> sorted l"
    unfolding build_sitemap_def sitemap_sort_map[OF d] by auto
qed


lemma cache_build_map_eq:
  "get_storage_bucket (GCS_BUCKET_TEST env) w = Inr bucket \<Longrightarrow>
     cache_build_map env w = (Inr (build_sitemap (list_blobs w bucket ''cache'')), w)"
  by (simp add: cache_build_map_def)

lemma cache_build_map_Inr:
  "cache_build_map env w = (Inr sitemap, w') \<Longrightarrow>
     \<exists>bucket. get_storage_bucket (GCS_BUCKET_TEST env) w = Inr bucket \<and>
       sitemap = build_sitemap (list_blobs w bucket ''cache'') \<and> w' = w"
  by (auto simp: cache_build_map_def split: sum.splits)

text \<open>
  C6. For every object listed under the prefix \<open>cache\<close> whose file name (the part of
  its key after the last slash) is not \<open>sitemap.json\<close>, the mapping returned by
  \<open>cache_build_map\<close> has, under the file name cut before its first dot, a list that
  contains the object's full key; a file name without a dot is its own cache key. The file
  name \<open>covid19.2021-05-01.csv\<close> gives the cache key \<open>covid19\<close>, the file name
  \<open>noextension\<close> gives \<open>noextension\<close>.
\<close>

theorem cache_key_derivation:
  assumes "get_storage_bucket (GCS_BUCKET_TEST env) w = Inr bucket"
    and "name \<in> set (list_blobs w bucket ''cache'')"
    and "filename = rev (takeWhile (\<lambda>c. c \<noteq> CHR ''/'') (rev name))"
    and "filename \<noteq> ''sitemap.json''"
  shows "\<exists>sitemap l. cache_build_map env w = (Inr sitemap, w) \<and>
      map_of sitemap (takeWhile (\<lambda>c. c \<noteq> CHR ''.'') filename) = Some l \<and> name \<in> set l \<and>
      (CHR ''.'' \<notin> set filename \<longrightarrow> takeWhile (\<lambda>c. c \<noteq> CHR ''.'') filename = filename) \<and>
      blob_sitemap_key ''covid19.2021-05-01.csv'' = ''covid19'' \<and>
      blob_sitemap_key ''noextension'' = ''noextension''"
proof -
  let ?names = "list_blobs w bucket ''cache''"
  let ?key = "takeWhile (\<lambda>c. c \<noteq> CHR ''.'') filename"
  have f: "blob_filename name = filename"
    using assms(3) by (simp add: blob_filename_eq)
  then have k: "blob_sitemap_key name = ?key"
    by (simp add: blob_sitemap_key_eq)
  from assms(2,4) f k have mem: "name \<in> set (manifest_members ?names ?key)"
    by (simp add: manifest_members_def)
  then have ne: "manifest_members ?names ?key \<noteq> []" by auto
  have m: "map_of (build_sitemap ?names) ?key = Some (sort (manifest_members ?names ?key))"
    using ne by (simp add: map_of_build_sitemap)
  have e1: "blob_sitemap_key ''covid19.2021-05-01.csv'' = ''covid19''"
    by (simp add: blob_sitemap_key_eq blob_filename_eq)
  have e2: "blob_sitemap_key ''noextension'' = ''noextension''"
    by (simp add: blob_sitemap_key_eq blob_filename_eq)
  show ?thesis
    using cache_build_map_eq[OF assms(1)] m mem e1 e2
    by (auto simp: takeWhile_neq_notin)
qed

text \<open>The theorem at the object \<open>cache/noextension\<close> of a bucket with five objects.\<close>

theorem cache_key_derivation_witness:
  "get_storage_bucket (GCS_BUCKET_TEST demo_env) manifest_world = Inr ''test'' \<and>
   ''cache/noextension'' \<in> set (list_blobs manifest_world ''test'' ''cache'') \<and>
   ''noextension'' \<noteq> ''sitemap.json'' \<and>
   (\<exists>sitemap l. cache_build_map demo_env manifest_world = (Inr sitemap, manifest_world) \<and>
      map_of sitemap ''noextension'' = Some l \<and> ''cache/noextension'' \<in> set l)"
proof -
  have h1: "get_storage_bucket (GCS_BUCKET_TEST demo_env) manifest_world = Inr ''test''"
    by (simp add: get_storage_bucket_def demo_env_def)
  have h2: "''cache/noextension'' \<in> set (list_blobs manifest_world ''test'' ''cache'')"
    by (simp add: list_blobs_def manifest_world_def quiet_world_def)
  have h3: "''noextension'' = rev (takeWhile (\<lambda>c. c \<noteq> CHR ''/'') (rev ''cache/noextension''))"
    by simp
  have h4: "''noextension'' \<noteq> ''sitemap.json''" by simp
  show ?thesis
    using h1 h2 h4 cache_key_derivation[OF h1 h2 h3 h4] by auto
qed

text \<open>
  C7. Every list of the mapping returned by \<open>cache_build_map\<close> is sorted ascending in
  the order of strings (lexicographic by character), whatever objects were listed.
\<close>

theorem cache_lists_sorted:
  assumes "cache_build_map env w = (Inr sitemap, w')"
    and "(k, l) \<in> set sitemap"
  shows "sorted l"
  using assms sorted_build_sitemap by (auto dest!: cache_build_map_Inr)

lemma manifest_world_sitemap:
  "cache_build_map demo_env manifest_world =
     (Inr [(''covid19'', [''cache/covid19.2021-05-01.csv'']),
           (''noextension'', [''cache/noextension'']),
           (''x'', [''cache/x.1'', ''cache/x.10'', ''cache/x.2''])], manifest_world)"
proof -
  have h1: "get_storage_bucket (GCS_BUCKET_TEST demo_env) manifest_world = Inr ''test''"
    by (simp add: get_storage_bucket_def demo_env_def)
  have h2: "list_blobs manifest_world ''test'' ''cache'' =
      [''cache/covid19.2021-05-01.csv'', ''cache/noextension'', ''cache/x.2'', ''cache/x.10'',
       ''cache/x.1'']"
    by (simp add: list_blobs_def manifest_world_def quiet_world_def)
  have h3: "build_sitemap [''cache/covid19.2021-05-01.csv'', ''cache/noextension'', ''cache/x.2'',
      ''cache/x.10'', ''cache/x.1''] =
     [(''covid19'', [''cache/covid19.2021-05-01.csv'']),
           (''noextension'', [''cache/noextension'']),
           (''x'', [''cache/x.1'', ''cache/x.10'', ''cache/x.2''])]"
    by code_simp
  show ?thesis using cache_build_map_eq[OF h1] h2 h3 by simp
qed

text \<open>
  The theorem at the list of the key \<open>x\<close>: \<open>cache/x.10\<close> comes before \<open>cache/x.2\<close>.
\<close>

theorem cache_lists_sorted_witness:
  "cache_build_map demo_env manifest_world =
     (Inr [(''covid19'', [''cache/covid19.2021-05-01.csv'']),
           (''noextension'', [''cache/noextension'']),
           (''x'', [''cache/x.1'', ''cache/x.10'', ''cache/x.2''])], manifest_world) \<and>
   sorted [''cache/x.1'', ''cache/x.10'', ''cache/x.2'']"
proof -
  have "(''x'', [''cache/x.1'', ''cache/x.10'', ''cache/x.2'']) \<in>
      set [(''covid19'', [''cache/covid19.2021-05-01.csv'']),
           (''noextension'', [''cache/noextension'']),
           (''x'', [''cache/x.1'', ''cache/x.10'', ''cache/x.2''])]"
    by simp
  from cache_lists_sorted[OF manifest_world_sitemap this] manifest_world_sitemap
  show ?thesis by simp
qed

text \<open>
  C8, as stated, fails: of the three objects listed here, \<open>cache/sitemap\<close> is not excluded
  (it is filed under the key \<open>sitemap\<close>), and \<open>cache/2020-05-01-13/sitemap.json\<close>, which
  is not the manifest's own key, is excluded.
\<close>

theorem cache_exclusion_counterexample:
  "fst (cache_build_map demo_env sitemap_world) =
     Inr [(''sitemap'', [''cache/sitemap'']), (''a'', [''cache/a.csv''])] \<and>
   list_blobs sitemap_world ''test'' ''cache'' =
     [''cache/sitemap'', ''cache/2020-05-01-13/sitemap.json'', ''cache/a.csv'']"
proof -
  have h1: "get_storage_bucket (GCS_BUCKET_TEST demo_env) sitemap_world = Inr ''test''"
    by (simp add: get_storage_bucket_def demo_env_def)
  have h2: "list_blobs sitemap_world ''test'' ''cache'' =
     [''cache/sitemap'', ''cache/2020-05-01-13/sitemap.json'', ''cache/a.csv'']"
    by (simp add: list_blobs_def sitemap_world_def quiet_world_def)
  have h3: "build_sitemap [''cache/sitemap'', ''cache/2020-05-01-13/sitemap.json'', ''cache/a.csv''] =
      [(''sitemap'', [''cache/sitemap'']), (''a'', [''cache/a.csv''])]"
    by code_simp
  show ?thesis using cache_build_map_eq[OF h1] h2 h3 by simp
qed

text \<open>
  C8, amended. \<open>cache_build_map\<close> considers all objects listed under the prefix \<open>cache\<close>
  and leaves out exactly those whose file name (the part of the key after the last slash)
  is \<open>sitemap.json\<close>, the manifest's own key \<open>cache/sitemap.json\<close> among them; every
  other listed object contributes exactly one entry: the lists of the mapping, taken
  together, hold the remaining listed keys, each as often as it was listed.
\<close>

theorem cache_exclusion:
  assumes "get_storage_bucket (GCS_BUCKET_TEST env) w = Inr bucket"
  shows "\<exists>sitemap. cache_build_map env w = (Inr sitemap, w) \<and>
     mset (concat (map snd sitemap)) =
       mset (filter (\<lambda>name. blob_filename name \<noteq> ''sitemap.json'')
               (list_blobs w bucket ''cache'')) \<and>
     blob_filename ''cache/sitemap.json'' = ''sitemap.json''"
  using cache_build_map_eq[OF assms]
  by (simp add: mset_build_sitemap blob_filename_eq)

text \<open>The theorem at the bucket of the counterexample.\<close>

theorem cache_exclusion_witness:
  "get_storage_bucket (GCS_BUCKET_TEST demo_env) sitemap_world = Inr ''test'' \<and>
   (\<exists>sitemap. cache_build_map demo_env sitemap_world = (Inr sitemap, sitemap_world) \<and>
     mset (concat (map snd sitemap)) =
       mset (filter (\<lambda>name. blob_filename name \<noteq> ''sitemap.json'')
               (list_blobs sitemap_world ''test'' ''cache'')))"
proof -
  have h1: "get_storage_bucket (GCS_BUCKET_TEST demo_env) sitemap_world = Inr ''test''"
    by (simp add: get_storage_bucket_def demo_env_def)
  show ?thesis using h1 cache_exclusion[OF h1] by auto
qed

section \<open>The table stages called outside a request\<close>

text \<open>
  C4. The claim holds for a handler that serves a request, and fails for the call
  \<open>update_table(table_name="epidemiology")\<close> that the dispatch under \<open>__main__\<close> makes from
  the command line. The name is registered, but \<open>idx\<close> is not given, so the second line of
  the handler reads \<open>request.args\<close>, which raises \<open>RuntimeError\<close> where no request is being
  served: the assertion is never reached and the stage does not proceed. With an unknown
  name the same call raises \<open>RuntimeError\<close> too, not \<open>AssertionError\<close>, and so does
  \<open>combine_table()\<close> without a name. Only when no argument has to be looked up in the
  request is the assertion reached. In each case the state is what it was. For a request
  with the query parameter \<open>table\<close> the handler does what the claim says.
\<close>

theorem update_table_outside_request:
  "''epidemiology'' \<in> set (get_table_names cli_env) \<and>
   ''unknown'' \<notin> set (get_table_names cli_env) \<and>
   update_table cli_env (Some ''epidemiology'') None quiet_world =
     (Inl RuntimeError, quiet_world) \<and>
   update_table cli_env (Some ''unknown'') None quiet_world = (Inl RuntimeError, quiet_world) \<and>
   combine_table cli_env None quiet_world = (Inl RuntimeError, quiet_world) \<and>
   update_table cli_env (Some ''unknown'') (Some 1) quiet_world =
     (Inl AssertionError, quiet_world) \<and>
   combine_table cli_env (Some ''unknown'') quiet_world = (Inl AssertionError, quiet_world) \<and>
   update_table (request_env [(''table'', ''unknown'')]) None None quiet_world =
     (Inl AssertionError, quiet_world) \<and>
   combine_table (request_env [(''table'', ''unknown'')]) None quiet_world =
     (Inl AssertionError, quiet_world) \<and>
   fst (update_table (request_env [(''table'', ''epidemiology'')]) None None quiet_world) =
     Inr ''OK'' \<and>
   fst (combine_table (request_env [(''table'', ''epidemiology'')]) None quiet_world) =
     Inr ''OK''"
proof -
  note defs = update_table_def combine_table_def seq_def lift_def raise_def py_or_def
    request_args_get_def request_idx_def cli_env_def request_env_def pipeline_env_def
    demo_env_def
  have n1: "''epidemiology'' \<in> set (get_table_names cli_env)"
    and n2: "''unknown'' \<notin> set (get_table_names cli_env)"
    by (simp_all add: defs)
  have r1: "update_table cli_env (Some ''epidemiology'') None quiet_world =
      (Inl RuntimeError, quiet_world)"
    and r2: "update_table cli_env (Some ''unknown'') None quiet_world =
      (Inl RuntimeError, quiet_world)"
    and r3: "combine_table cli_env None quiet_world = (Inl RuntimeError, quiet_world)"
    by (simp_all add: defs)
  have a1: "update_table cli_env (Some ''unknown'') (Some 1) quiet_world =
      (Inl AssertionError, quiet_world)"
    and a2: "combine_table cli_env (Some ''unknown'') quiet_world =
      (Inl AssertionError, quiet_world)"
    and a3: "update_table (request_env [(''table'', ''unknown'')]) None None quiet_world =
      (Inl AssertionError, quiet_world)"
    and a4: "combine_table (request_env [(''table'', ''unknown'')]) None quiet_world =
      (Inl AssertionError, quiet_world)"
    by (simp_all add: defs)
  have k1: "fst (update_table (request_env [(''table'', ''epidemiology'')]) None None
      quiet_world) = Inr ''OK''"
    by code_simp
  have k2: "fst (combine_table (request_env [(''table'', ''epidemiology'')]) None
      quiet_world) = Inr ''OK''"
    by code_simp
  show ?thesis
    by (intro conjI; fact)
qed

text \<open>
  C10. The claim holds for a handler that serves a request, and fails for the direct call
  \<open>update_table(table_name="epidemiology", idx=0)\<close> from the command line: the zero is
  treated as no index, as the claim says, but the fallback reads \<open>request.args\<close> where no
  request is being served, and the call raises \<open>RuntimeError\<close> instead of going on with the
  index of a request or with all data sources. The same happens without \<open>idx\<close>, and with an
  empty \<open>table_name\<close>. A direct index 1 is used as given: the snapshot of the example
  pipeline is as long as the second data source. Inside a request the direct index 0 gives
  way to the parameter \<open>idx\<close> of the request (here 1, then 0), or to all data sources when
  the request has none.
\<close>

theorem update_table_zero_index_outside_request:
  "update_table cli_env (Some ''epidemiology'') (Some 0) quiet_world =
     (Inl RuntimeError, quiet_world) \<and>
   update_table cli_env (Some ''epidemiology'') None quiet_world =
     (Inl RuntimeError, quiet_world) \<and>
   update_table cli_env (Some []) (Some 1) quiet_world = (Inl RuntimeError, quiet_world) \<and>
   data_sources demo_pipeline = [1, 2] \<and>
   map_of (buckets (snd (update_table cli_env (Some ''epidemiology'') (Some 1) quiet_world))
     ''test'') ''snapshot/data.csv'' = Some ''xx'' \<and>
   map_of (buckets (snd (update_table (request_env [(''idx'', ''1'')])
        (Some ''epidemiology'') (Some 0) quiet_world)) ''test'') ''snapshot/data.csv'' =
     Some ''xx'' \<and>
   map_of (buckets (snd (update_table (request_env [(''idx'', ''0'')])
        (Some ''epidemiology'') (Some 0) quiet_world)) ''test'') ''snapshot/data.csv'' =
     Some ''x'' \<and>
   map_of (buckets (snd (update_table (request_env [])
        (Some ''epidemiology'') (Some 0) quiet_world)) ''test'') ''snapshot/data.csv'' =
     Some ''xxx'' \<and>
   map_of (buckets (snd (update_table (request_env [(''table'', ''epidemiology'')])
        (Some []) (Some 1) quiet_world)) ''test'') ''snapshot/data.csv'' =
     Some ''xx''"
proof -
  note defs = update_table_def seq_def lift_def py_or_def request_args_get_def
    request_idx_def cli_env_def
  have r1: "update_table cli_env (Some ''epidemiology'') (Some 0) quiet_world =
      (Inl RuntimeError, quiet_world)"
    and r2: "update_table cli_env (Some ''epidemiology'') None quiet_world =
      (Inl RuntimeError, quiet_world)"
    and r3: "update_table cli_env (Some []) (Some 1) quiet_world =
      (Inl RuntimeError, quiet_world)"
    by (simp_all add: defs)
  have d: "data_sources demo_pipeline = [1, 2]"
    by (simp add: demo_pipeline_def)
  have k1: "map_of (buckets (snd (update_table cli_env (Some ''epidemiology'') (Some 1)
      quiet_world)) ''test'') ''snapshot/data.csv'' = Some ''xx''"
    by code_simp
  have k2: "map_of (buckets (snd (update_table (request_env [(''idx'', ''1'')])
        (Some ''epidemiology'') (Some 0) quiet_world)) ''test'') ''snapshot/data.csv'' =
      Some ''xx''"
    by code_simp
  have k3: "map_of (buckets (snd (update_table (request_env [(''idx'', ''0'')])
        (Some ''epidemiology'') (Some 0) quiet_world)) ''test'') ''snapshot/data.csv'' =
      Some ''x''"
    by code_simp
  have k4: "map_of (buckets (snd (update_table (request_env [])
        (Some ''epidemiology'') (Some 0) quiet_world)) ''test'') ''snapshot/data.csv'' =
      Some ''xxx''"
    by code_simp
  have k5: "map_of (buckets (snd (update_table (request_env [(''table'', ''epidemiology'')])
        (Some []) (Some 1) quiet_world)) ''test'') ''snapshot/data.csv'' =
      Some ''xx''"
    by code_simp
  show ?thesis
    by (intro conjI; fact)
qed

section \<open>Retrying a transfer\<close>

lemma fails_attempt_stderr [simp]:
  "fails (attempt op w\<lparr>stderr := e\<rparr>) op' = flaky w op' (count_list (calls w @ [op]) op')"
  by (simp add: fails_def attempt_def)

lemma upload_from_filename_cases:
  "upload_from_filename bucket name p w =
     (case read_file (fs w) p of
        Inl e \<Rightarrow> (Inl e, attempt (Upload bucket name p) w)
      | Inr data \<Rightarrow>
          if fails w (Upload bucket name p) then (Inl TransferError, attempt (Upload bucket name p) w)
          else (Inr (), put_blob bucket name data (attempt (Upload bucket name p) w)))"
  by (simp add: upload_from_filename_def Let_def)

text \<open>What every run of the upload loop keeps and what it may change.\<close>

lemma retry_upload_frame:
  "\<exists>k\<le>n. calls (retry n (upload_from_filename bucket name p) w) =
            calls w @ replicate k (Upload bucket name p) \<and>
     fs (retry n (upload_from_filename bucket name p) w) = fs w \<and>
     flaky (retry n (upload_from_filename bucket name p) w) = flaky w \<and>
     environ (retry n (upload_from_filename bucket name p) w) = environ w \<and>
     web (retry n (upload_from_filename bucket name p) w) = web w \<and>
     (\<forall>b nm. (b, nm) \<noteq> (bucket, name) \<longrightarrow>
        map_of (buckets (retry n (upload_from_filename bucket name p) w) b) nm =
        map_of (buckets w b) nm)"
proof (induction n arbitrary: w)
  case 0
  show ?case by simp
next
  case (Suc n)
  let ?op = "Upload bucket name p"
  show ?case
  proof (cases "upload_from_filename bucket name p w")
    case (Pair r w1)
    show ?thesis
    proof (cases r)
      case (Inr u)
      with Pair have w1: "w1 = put_blob bucket name (projr (read_file (fs w) p)) (attempt ?op w)"
        by (auto simp: upload_from_filename_cases split: sum.splits if_splits)
      have "calls w1 = calls w @ replicate 1 ?op"
        by (simp add: w1 put_blob_def attempt_def)
      moreover have "(1::nat) \<le> Suc n" by simp
      ultimately show ?thesis
        using Pair Inr
        by (intro exI[of _ 1]) (auto simp: w1 put_blob_def attempt_def update_conv')
    next
      case (Inl e)
      with Pair have w1: "w1 = attempt ?op w"
        by (auto simp: upload_from_filename_cases split: sum.splits if_splits)
      let ?w2 = "w1\<lparr>stderr := stderr w1 @ [e]\<rparr>"
      from Suc.IH[of ?w2] obtain k where k: "k \<le> n"
        "calls (retry n (upload_from_filename bucket name p) ?w2) = calls ?w2 @ replicate k ?op"
        and rest: "fs (retry n (upload_from_filename bucket name p) ?w2) = fs ?w2"
        "flaky (retry n (upload_from_filename bucket name p) ?w2) = flaky ?w2"
        "environ (retry n (upload_from_filename bucket name p) ?w2) = environ ?w2"
        "web (retry n (upload_from_filename bucket name p) ?w2) = web ?w2"
        "\<forall>b nm. (b, nm) \<noteq> (bucket, name) \<longrightarrow>
          map_of (buckets (retry n (upload_from_filename bucket name p) ?w2) b) nm =
          map_of (buckets ?w2 b) nm"
        by blast
      have c: "calls ?w2 @ replicate k ?op = calls w @ replicate (Suc k) ?op"
        by (simp add: w1 attempt_def replicate_app_Cons_same)
      show ?thesis
        using Pair Inl k rest c
        by (intro exI[of _ "Suc k"]) (simp add: w1 attempt_def)
    qed
  qed
qed




lemma retry_upload_first_time:
  "read_file (fs w) p = Inr data \<Longrightarrow> \<not> fails w (Upload bucket name p) \<Longrightarrow>
     retry (Suc n) (upload_from_filename bucket name p) w =
       put_blob bucket name data (attempt (Upload bucket name p) w)"
  by (simp add: upload_from_filename_cases)

lemma retry_upload_unreadable:
  "read_file (fs w) p = Inl e \<Longrightarrow>
     retry n (upload_from_filename bucket name p) w =
       w\<lparr>calls := calls w @ replicate n (Upload bucket name p),
         stderr := stderr w @ replicate n e\<rparr>"
proof (induction n arbitrary: w)
  case 0
  show ?case by simp
next
  case (Suc n)
  let ?op = "Upload bucket name p"
  let ?w2 = "(attempt ?op w)\<lparr>stderr := stderr (attempt ?op w) @ [e]\<rparr>"
  from Suc.prems have "read_file (fs ?w2) p = Inl e" by (simp add: attempt_def)
  from Suc.IH[OF this] Suc.prems show ?case
    by (simp add: upload_from_filename_cases attempt_def replicate_app_Cons_same)
qed

section \<open>Running the tasks\<close>

lemma thread_map_Cons:
  "thread_map f (x # xs) w =
     ((case fst (f x w) of Inl e \<Rightarrow> Inl e | Inr _ \<Rightarrow> fst (thread_map f xs (snd (f x w)))),
      snd (thread_map f xs (snd (f x w))))"
  by (cases "f x w"; cases "thread_map f xs (snd (f x w))") (auto split: sum.splits)

lemma snd_thread_map: "snd (thread_map f xs w) = foldl (\<lambda>w x. snd (f x w)) w xs"
  by (induction xs arbitrary: w) (simp_all add: thread_map_Cons del: thread_map.simps(2))

lemma fst_thread_map_ok:
  "(\<And>x w. x \<in> set xs \<Longrightarrow> fst (f x w) = Inr ()) \<Longrightarrow> fst (thread_map f xs w) = Inr ()"
proof (induction xs arbitrary: w)
  case Nil
  show ?case by simp
next
  case (Cons x xs)
  have "fst (f x w) = Inr ()" using Cons.prems by simp
  moreover have "fst (thread_map f xs w') = Inr ()" for w'
    using Cons.IH Cons.prems by simp
  ultimately show ?case
    by (simp add: thread_map_Cons del: thread_map.simps(2))
qed

lemma upload_file_eq:
  "prefix local_folder q \<Longrightarrow>
     upload_file bucket local_folder remote_path q w =
       (Inr (), retry BLOB_OP_MAX_RETRIES
                  (upload_from_filename bucket (remote_key remote_path local_folder q) q) w)"
  by (simp add: upload_file_def relative_to_def remote_key_def)

lemma glob_dotted_prefix: "q \<in> set (glob_dotted t local_folder) \<Longrightarrow> prefix local_folder q"
  by (auto simp: glob_dotted_def strict_prefix_def)

lemma upload_folder_eq:
  "get_storage_bucket bucket_name w = Inr bucket \<Longrightarrow>
     upload_folder bucket_name remote_path local_folder w =
       (Inr (), foldl (\<lambda>w q. upload_round bucket remote_path local_folder q w)
                 w (glob_dotted (fs w) local_folder))"
proof -
  assume b: "get_storage_bucket bucket_name w = Inr bucket"
  let ?ps = "glob_dotted (fs w) local_folder"
  let ?f = "upload_file bucket local_folder remote_path"
  have ok: "fst (thread_map ?f ?ps w) = Inr ()"
    by (rule fst_thread_map_ok) (simp add: upload_file_eq glob_dotted_prefix)
  have "foldl (\<lambda>w q. snd (?f q w)) w0 ps =
        foldl (\<lambda>w q. upload_round bucket remote_path local_folder q w) w0 ps"
    if "\<forall>q\<in>set ps. prefix local_folder q" for ps w0
    using that by (induction ps arbitrary: w0) (simp_all add: upload_file_eq upload_round_def)
  then have st: "snd (thread_map ?f ?ps w) =
        foldl (\<lambda>w q. upload_round bucket remote_path local_folder q w) w ?ps"
    by (simp add: snd_thread_map glob_dotted_prefix)
  show ?thesis
    using b ok st by (simp add: upload_folder_def prod_eq_iff)
qed


lemma count_list_replicate: "count_list (replicate k y) x = (if x = y then k else 0)"
  by (induction k) auto





section \<open>Downloads\<close>

lemma file_at_append_Dir [simp]: "file_at (t @ [(p, Dir)]) q = file_at t q"
  by (auto simp: file_at_def map_add_def split: option.splits node.splits)

lemma file_at_update [simp]:
  "file_at (AList.update p (File data) t) q = (if q = p then Some data else file_at t q)"
  by (simp add: file_at_def update_conv')








lemma write_file_map_of:
  "write_file t p d = Inr t1 \<Longrightarrow> map_of t1 q = (if q = p then Some (File d) else map_of t q)"
  by (auto simp: write_file_def update_conv' split: if_splits)









section \<open>Paths and their strings\<close>

lemma partition_sep_slash_append:
  "CHR ''/'' \<notin> set c \<Longrightarrow> partition_sep ''/'' (c @ CHR ''/'' # r) = Some (c, r)"
  by (induction c) auto

lemma partition_sep_slash_none: "CHR ''/'' \<notin> set c \<Longrightarrow> partition_sep ''/'' c = None"
  by (simp add: partition_sep_char)

lemma split_max_fspath:
  "p \<noteq> [] \<Longrightarrow> \<forall>c\<in>set p. CHR ''/'' \<notin> set c \<Longrightarrow> length p \<le> Suc n \<Longrightarrow>
     split_max n ''/'' (fspath p) = p"
proof (induction p arbitrary: n rule: fspath.induct)
  case 1
  then show ?case by simp
next
  case (2 c)
  then show ?case by (cases n) (simp_all add: partition_sep_slash_none)
next
  case (3 c d cs)
  from "3.prems" obtain m where n: "n = Suc m" by (cases n) auto
  with "3.prems" have "split_max m ''/'' (fspath (d # cs)) = d # cs"
    by (intro "3.IH") auto
  with "3.prems" n show ?case
    by (simp add: partition_sep_slash_append)
qed

lemma length_fspath: "p \<noteq> [] \<Longrightarrow> length p \<le> Suc (length (fspath p))"
  by (induction p rule: fspath.induct) auto

lemma py_split_fspath:
  "p \<noteq> [] \<Longrightarrow> \<forall>c\<in>set p. CHR ''/'' \<notin> set c \<Longrightarrow> py_split ''/'' (fspath p) = p"
  unfolding py_split_def by (rule split_max_fspath) (simp_all add: length_fspath)

lemma valid_name_no_slash: "valid_name c \<Longrightarrow> CHR ''/'' \<notin> set c"
  by (simp add: valid_name_def)

lemma valid_name_kept: "valid_name c \<Longrightarrow> c \<noteq> [] \<and> c \<noteq> ''.''"
  by (simp add: valid_name_def)

lemma valid_name_hd: "valid_name c \<Longrightarrow> c \<noteq> [] \<and> hd c \<noteq> CHR ''/''"
proof -
  assume v: "valid_name c"
  then have "c \<noteq> []" by (simp add: valid_name_def)
  then have "hd c \<in> set c" by simp
  with v valid_name_no_slash[OF v] \<open>c \<noteq> []\<close> show ?thesis by metis
qed

lemma path_parts_fspath:
  assumes "p \<noteq> []" and v: "\<forall>c\<in>set p. valid_name c"
  shows "path_parts (fspath p) = p"
proof -
  have "\<forall>c\<in>set p. CHR ''/'' \<notin> set c" using v valid_name_no_slash by blast
  with assms(1) have s: "py_split ''/'' (fspath p) = p" by (rule py_split_fspath)
  have "filter (\<lambda>c. c \<noteq> [] \<and> c \<noteq> ''.'') p = p"
    by (rule filter_True) (use v valid_name_kept in blast)
  with s show ?thesis by (simp only: path_parts_def)
qed

lemma hd_fspath:
  assumes "p \<noteq> []" and v: "\<forall>c\<in>set p. valid_name c"
  shows "fspath p \<noteq> [] \<and> hd (fspath p) \<noteq> CHR ''/''"
proof (cases p rule: fspath.cases)
  case 1
  with assms(1) show ?thesis by simp
next
  case (2 c)
  with v have "valid_name c" by simp
  from valid_name_hd[OF this] 2 show ?thesis by simp
next
  case (3 c d cs)
  with v have "valid_name c" by simp
  from valid_name_hd[OF this] 3 show ?thesis by simp
qed

lemma os_path_join_relative:
  "b \<noteq> [] \<and> hd b \<noteq> CHR ''/'' \<Longrightarrow>
     os_path_join a b = (if a = [] \<or> last a = CHR ''/'' then a @ b else a @ ''/'' @ b)"
  by (simp add: os_path_join_def)

lemma remote_key_inj:
  assumes "strict_prefix lf p" "strict_prefix lf q"
    and "\<forall>c\<in>set p. valid_name c" "\<forall>c\<in>set q. valid_name c"
    and "remote_key rp lf p = remote_key rp lf q"
  shows "p = q"
proof -
  let ?a = "drop (length lf) p" and ?b = "drop (length lf) q"
  from assms(1,2) have ne: "?a \<noteq> []" "?b \<noteq> []"
    and pq: "p = lf @ ?a" "q = lf @ ?b"
    by (auto simp: strict_prefix_def prefix_def)
  from assms(3,4) have v: "\<forall>c\<in>set ?a. valid_name c" "\<forall>c\<in>set ?b. valid_name c"
    by (auto dest: in_set_dropD)
  from assms(5) have "fspath ?a = fspath ?b"
    using hd_fspath[OF ne(1) v(1)] hd_fspath[OF ne(2) v(2)]
    by (simp add: remote_key_def os_path_join_relative split: if_splits)
  then have "path_parts (fspath ?a) = path_parts (fspath ?b)" by simp
  moreover have "path_parts (fspath ?a) = ?a" by (rule path_parts_fspath[OF ne(1) v(1)])
  moreover have "path_parts (fspath ?b) = ?b" by (rule path_parts_fspath[OF ne(2) v(2)])
  ultimately have ab: "?a = ?b" by simp
  have "p = lf @ ?a" by (rule pq(1))
  also have "\<dots> = lf @ ?b" by (simp only: ab)
  also have "\<dots> = q" by (rule pq(2)[symmetric])
  finally show ?thesis .
qed

section \<open>Uploads that all go through\<close>

lemma read_file_file_at: "q \<noteq> [] \<Longrightarrow> file_at t q = Some data \<Longrightarrow> read_file t q = Inr data"
  by (auto simp: read_file_def file_at_def is_dir_def split: option.splits node.splits)

lemma read_file_no_file: "file_at t q = None \<Longrightarrow> \<exists>e. read_file t q = Inl e"
  by (auto simp: read_file_def file_at_def split: option.splits node.splits)

lemma map_of_put_blob:
  "map_of (buckets (put_blob bucket name data w) b) nm =
     (if b = bucket \<and> nm = name then Some data else map_of (buckets w b) nm)"
  by (simp add: put_blob_def update_conv')

lemma upload_round_file:
  assumes "q \<noteq> []" "file_at (fs w) q = Some data"
    and "\<not> flaky w (Upload bucket (remote_key rp lf q) q)
           (count_list (calls w) (Upload bucket (remote_key rp lf q) q))"
  shows "upload_round bucket rp lf q w =
       put_blob bucket (remote_key rp lf q) data (attempt (Upload bucket (remote_key rp lf q) q) w)"
proof -
  have r: "read_file (fs w) q = Inr data" using assms(1,2) by (rule read_file_file_at)
  have f: "\<not> fails w (Upload bucket (remote_key rp lf q) q)" using assms(3) by (simp add: fails_def)
  have "BLOB_OP_MAX_RETRIES = Suc 2" by (simp add: BLOB_OP_MAX_RETRIES_def)
  then show ?thesis
    unfolding upload_round_def using retry_upload_first_time[OF r f, of 2] by simp
qed

lemma upload_round_no_file:
  assumes "file_at (fs w) q = None"
  shows "buckets (upload_round bucket rp lf q w) = buckets w"
proof -
  from read_file_no_file[OF assms] obtain e where "read_file (fs w) q = Inl e" ..
  from retry_upload_unreadable[OF this] show ?thesis
    unfolding upload_round_def by simp
qed

lemma upload_round_frame:
  "\<exists>k. calls (upload_round bucket rp lf q w) =
          calls w @ replicate k (Upload bucket (remote_key rp lf q) q) \<and>
     fs (upload_round bucket rp lf q w) = fs w \<and>
     flaky (upload_round bucket rp lf q w) = flaky w \<and>
     environ (upload_round bucket rp lf q w) = environ w \<and>
     web (upload_round bucket rp lf q w) = web w \<and>
     (\<forall>b nm. (b, nm) \<noteq> (bucket, remote_key rp lf q) \<longrightarrow>
        map_of (buckets (upload_round bucket rp lf q w) b) nm = map_of (buckets w b) nm)"
  using retry_upload_frame[of BLOB_OP_MAX_RETRIES bucket "remote_key rp lf q" q w]
  unfolding upload_round_def by blast

lemma foldl_upload_all:
  assumes nofail: "\<forall>op k. \<not> flaky w op k"
    and inj: "inj_on (remote_key rp lf) (set ps)"
    and dist: "distinct ps"
    and ne: "[] \<notin> set ps"
  shows "fs (foldl (\<lambda>w q. upload_round bucket rp lf q w) w ps) = fs w \<and>
     flaky (foldl (\<lambda>w q. upload_round bucket rp lf q w) w ps) = flaky w \<and>
     environ (foldl (\<lambda>w q. upload_round bucket rp lf q w) w ps) = environ w \<and>
     web (foldl (\<lambda>w q. upload_round bucket rp lf q w) w ps) = web w \<and>
     (\<forall>b nm. b \<noteq> bucket \<longrightarrow>
        map_of (buckets (foldl (\<lambda>w q. upload_round bucket rp lf q w) w ps) b) nm =
        map_of (buckets w b) nm) \<and>
     (\<forall>q\<in>set ps. \<forall>data. file_at (fs w) q = Some data \<longrightarrow>
        map_of (buckets (foldl (\<lambda>w q. upload_round bucket rp lf q w) w ps) bucket)
          (remote_key rp lf q) = Some data) \<and>
     (\<forall>k. (\<forall>q\<in>set ps. file_at (fs w) q \<noteq> None \<longrightarrow> remote_key rp lf q \<noteq> k) \<longrightarrow>
        map_of (buckets (foldl (\<lambda>w q. upload_round bucket rp lf q w) w ps) bucket) k =
        map_of (buckets w bucket) k) \<and>
     (\<forall>p nm. p \<notin> set ps \<longrightarrow>
        count_list (calls (foldl (\<lambda>w q. upload_round bucket rp lf q w) w ps)) (Upload bucket nm p) =
        count_list (calls w) (Upload bucket nm p))"
  using inj dist ne
proof (induction ps rule: rev_induct)
  case Nil
  show ?case by simp
next
  case (snoc q ps)
  let ?key = "remote_key rp lf"
  let ?wm = "foldl (\<lambda>w q. upload_round bucket rp lf q w) w ps"
  let ?w' = "upload_round bucket rp lf q ?wm"
  from snoc.prems have inj': "inj_on ?key (set ps)" and dist': "distinct ps"
    and ne': "[] \<notin> set ps" and qn: "q \<notin> set ps" and q0: "q \<noteq> []"
    by (auto simp: inj_on_def)
  have keyq: "?key q' \<noteq> ?key q" if "q' \<in> set ps" for q'
    using snoc.prems(1) that qn by (auto simp: inj_on_def)
  from snoc.IH[OF inj' dist' ne']
  have m1: "fs ?wm = fs w" and m2: "flaky ?wm = flaky w" and m3: "environ ?wm = environ w"
    and m4: "web ?wm = web w"
    and m5: "\<forall>b nm. b \<noteq> bucket \<longrightarrow> map_of (buckets ?wm b) nm = map_of (buckets w b) nm"
    and m6: "\<forall>q\<in>set ps. \<forall>data. file_at (fs w) q = Some data \<longrightarrow>
        map_of (buckets ?wm bucket) (?key q) = Some data"
    and m7: "\<forall>k. (\<forall>q\<in>set ps. file_at (fs w) q \<noteq> None \<longrightarrow> ?key q \<noteq> k) \<longrightarrow>
        map_of (buckets ?wm bucket) k = map_of (buckets w bucket) k"
    and m8: "\<forall>p nm. p \<notin> set ps \<longrightarrow>
        count_list (calls ?wm) (Upload bucket nm p) = count_list (calls w) (Upload bucket nm p)"
    by blast+
  from upload_round_frame[of bucket rp lf q ?wm]
  obtain k where f0: "calls ?w' = calls ?wm @ replicate k (Upload bucket (?key q) q)"
    and f1: "fs ?w' = fs ?wm" and f2: "flaky ?w' = flaky ?wm"
    and f3: "environ ?w' = environ ?wm" and f4: "web ?w' = web ?wm"
    and f5: "\<forall>b nm. (b, nm) \<noteq> (bucket, ?key q) \<longrightarrow>
        map_of (buckets ?w' b) nm = map_of (buckets ?wm b) nm"
    by blast
  have at_q: "map_of (buckets ?w' bucket) (?key q) =
      (case file_at (fs w) q of Some data \<Rightarrow> Some data
       | None \<Rightarrow> map_of (buckets ?wm bucket) (?key q))"
  proof (cases "file_at (fs w) q")
    case None
    then have "file_at (fs ?wm) q = None" by (simp add: m1)
    from upload_round_no_file[OF this] None show ?thesis by simp
  next
    case (Some data)
    then have a: "file_at (fs ?wm) q = Some data" by (simp add: m1)
    have b: "\<not> flaky ?wm (Upload bucket (?key q) q)
        (count_list (calls ?wm) (Upload bucket (?key q) q))"
      using nofail m2 by simp
    from upload_round_file[OF q0 a b] Some show ?thesis
      by (simp add: map_of_put_blob)
  qed
  have c5: "\<forall>b nm. b \<noteq> bucket \<longrightarrow> map_of (buckets ?w' b) nm = map_of (buckets w b) nm"
    using f5 m5 by simp
  have c6: "\<forall>q'\<in>set (ps @ [q]). \<forall>data. file_at (fs w) q' = Some data \<longrightarrow>
        map_of (buckets ?w' bucket) (?key q') = Some data"
  proof (intro ballI allI impI)
    fix q' data assume q': "q' \<in> set (ps @ [q])" and d: "file_at (fs w) q' = Some data"
    show "map_of (buckets ?w' bucket) (?key q') = Some data"
    proof (cases "q' = q")
      case True
      with at_q d show ?thesis by simp
    next
      case False
      with q' have in_ps: "q' \<in> set ps" by simp
      from keyq[OF in_ps] f5 have "map_of (buckets ?w' bucket) (?key q') =
          map_of (buckets ?wm bucket) (?key q')" by simp
      with m6 in_ps d show ?thesis by simp
    qed
  qed
  have c7: "\<forall>k. (\<forall>q'\<in>set (ps @ [q]). file_at (fs w) q' \<noteq> None \<longrightarrow> ?key q' \<noteq> k) \<longrightarrow>
        map_of (buckets ?w' bucket) k = map_of (buckets w bucket) k"
  proof (intro allI impI)
    fix k assume k: "\<forall>q'\<in>set (ps @ [q]). file_at (fs w) q' \<noteq> None \<longrightarrow> ?key q' \<noteq> k"
    then have old: "map_of (buckets ?wm bucket) k = map_of (buckets w bucket) k"
      using m7 by simp
    show "map_of (buckets ?w' bucket) k = map_of (buckets w bucket) k"
    proof (cases "?key q = k")
      case False
      with f5 old show ?thesis by simp
    next
      case True
      with k have "file_at (fs w) q = None" by auto
      with at_q True old show ?thesis by simp
    qed
  qed
  have c8: "\<forall>p nm. p \<notin> set (ps @ [q]) \<longrightarrow>
        count_list (calls ?w') (Upload bucket nm p) = count_list (calls w) (Upload bucket nm p)"
    using f0 m8 by (auto simp: count_list_replicate)
  show ?case
    using m1 m2 m3 m4 f1 f2 f3 f4 c5 c6 c7 c8 by simp
qed

section \<open>Pulling the cache sources\<close>










section \<open>Bounded retry\<close>








section \<open>What an upload of a folder sends\<close>

lemma well_formed_names: "well_formed t \<Longrightarrow> p \<in> fst ` set t \<Longrightarrow> c \<in> set p \<Longrightarrow> valid_name c"
  unfolding well_formed_def by blast

lemma well_formed_distinct: "well_formed t \<Longrightarrow> distinct (map fst t)"
  unfolding well_formed_def by blast

lemma file_at_listed: "file_at t p = Some data \<Longrightarrow> p \<in> fst ` set t"
  by (auto simp: file_at_def split: option.splits node.splits dest!: map_of_SomeD intro: rev_image_eqI)

lemma set_glob_dotted:
  "set (glob_dotted t lf) = {p \<in> fst ` set t. dotted_below lf p}"
  by (auto simp: glob_dotted_def dotted_below_def intro: rev_image_eqI)

lemma remote_key_plain:
  assumes "strict_prefix lf p" "\<forall>c\<in>set p. valid_name c" "rp \<noteq> []" "last rp \<noteq> CHR ''/''"
  shows "remote_key rp lf p = rp @ ''/'' @ fspath (drop (length lf) p)"
proof -
  let ?a = "drop (length lf) p"
  from assms(1) have ne: "?a \<noteq> []" by (auto simp: strict_prefix_def prefix_def)
  from assms(2) have v: "\<forall>c\<in>set ?a. valid_name c" by (auto dest: in_set_dropD)
  from hd_fspath[OF ne v] assms(3,4) show ?thesis
    by (simp add: remote_key_def os_path_join_relative)
qed

text \<open>
  C2, amended. In a well-formed tree and when no transfer fails, \<open>upload_folder\<close> returns
  normally, leaves the tree as it is, and
  \<^item> every regular file at any depth below \<open>local_folder\<close> whose name contains a dot is
    afterwards in the bucket, with its content, under \<open>os.path.join(remote_path, rel)\<close>
    for its path \<open>rel\<close> relative to \<open>local_folder\<close>;
  \<^item> every other object name of the bucket has what it had before;
  \<^item> for a path that is not below \<open>local_folder\<close> or whose name has no dot, no upload is
    attempted at all;
  \<^item> for a non-empty \<open>remote_path\<close> that does not end in a slash, the blob name is
    \<open>remote_path/rel\<close>.
\<close>

theorem upload_folder_dotted:
  assumes b: "get_storage_bucket bucket_name w = Inr bucket"
    and wf: "well_formed (fs w)"
    and nofail: "\<forall>op k. \<not> flaky w op k"
  shows "\<exists>w'. upload_folder bucket_name remote_path local_folder w = (Inr (), w') \<and>
     fs w' = fs w \<and>
     (\<forall>p data. file_at (fs w) p = Some data \<and> dotted_below local_folder p \<longrightarrow>
        map_of (buckets w' bucket) (remote_key remote_path local_folder p) = Some data) \<and>
     (\<forall>k. (\<forall>p. file_at (fs w) p \<noteq> None \<and> dotted_below local_folder p \<longrightarrow>
              remote_key remote_path local_folder p \<noteq> k) \<longrightarrow>
        map_of (buckets w' bucket) k = map_of (buckets w bucket) k) \<and>
     (\<forall>p nm. \<not> dotted_below local_folder p \<longrightarrow>
        count_list (calls w') (Upload bucket nm p) = count_list (calls w) (Upload bucket nm p)) \<and>
     (\<forall>p. p \<in> fst ` set (fs w) \<and> strict_prefix local_folder p \<and>
          remote_path \<noteq> [] \<and> last remote_path \<noteq> CHR ''/'' \<longrightarrow>
        remote_key remote_path local_folder p =
          remote_path @ ''/'' @ fspath (drop (length local_folder) p))"
proof -
  let ?ps = "glob_dotted (fs w) local_folder"
  let ?key = "remote_key remote_path local_folder"
  let ?w' = "foldl (\<lambda>w q. upload_round bucket remote_path local_folder q w) w ?ps"
  have sp: "set ?ps = {p \<in> fst ` set (fs w). dotted_below local_folder p}"
    by (rule set_glob_dotted)
  have dist: "distinct ?ps"
    using well_formed_distinct[OF wf] by (simp add: glob_dotted_def distinct_map_filter)
  have ne: "[] \<notin> set ?ps"
    by (auto simp: sp dotted_below_def)
  have inj: "inj_on ?key (set ?ps)"
  proof (rule inj_onI)
    fix p q assume p: "p \<in> set ?ps" and q: "q \<in> set ?ps" and e: "?key p = ?key q"
    from p q have "strict_prefix local_folder p" "strict_prefix local_folder q"
      by (simp_all add: sp dotted_below_def)
    moreover from p q have "\<forall>c\<in>set p. valid_name c" "\<forall>c\<in>set q. valid_name c"
      using well_formed_names[OF wf] by (auto simp: sp)
    ultimately show "p = q" using e by (rule remote_key_inj)
  qed
  note all = foldl_upload_all[OF nofail inj dist ne, of bucket]
  have run: "upload_folder bucket_name remote_path local_folder w = (Inr (), ?w')"
    by (rule upload_folder_eq[OF b])
  have c1: "fs ?w' = fs w" using all by blast
  have c2: "\<forall>p data. file_at (fs w) p = Some data \<and> dotted_below local_folder p \<longrightarrow>
        map_of (buckets ?w' bucket) (?key p) = Some data"
  proof (intro allI impI)
    fix p data assume a: "file_at (fs w) p = Some data \<and> dotted_below local_folder p"
    then have "p \<in> set ?ps" by (simp add: sp file_at_listed)
    with all a show "map_of (buckets ?w' bucket) (?key p) = Some data" by blast
  qed
  have c3: "\<forall>k. (\<forall>p. file_at (fs w) p \<noteq> None \<and> dotted_below local_folder p \<longrightarrow> ?key p \<noteq> k) \<longrightarrow>
        map_of (buckets ?w' bucket) k = map_of (buckets w bucket) k"
  proof (intro allI impI)
    fix k assume a: "\<forall>p. file_at (fs w) p \<noteq> None \<and> dotted_below local_folder p \<longrightarrow> ?key p \<noteq> k"
    then have "\<forall>q\<in>set ?ps. file_at (fs w) q \<noteq> None \<longrightarrow> ?key q \<noteq> k"
      by (simp add: sp)
    with all show "map_of (buckets ?w' bucket) k = map_of (buckets w bucket) k" by blast
  qed
  have c4: "\<forall>p nm. \<not> dotted_below local_folder p \<longrightarrow>
        count_list (calls ?w') (Upload bucket nm p) = count_list (calls w) (Upload bucket nm p)"
  proof (intro allI impI)
    fix p nm assume "\<not> dotted_below local_folder p"
    then have "p \<notin> set ?ps" by (simp add: sp)
    with all show "count_list (calls ?w') (Upload bucket nm p) =
        count_list (calls w) (Upload bucket nm p)" by blast
  qed
  have c5: "\<forall>p. p \<in> fst ` set (fs w) \<and> strict_prefix local_folder p \<and>
          remote_path \<noteq> [] \<and> last remote_path \<noteq> CHR ''/'' \<longrightarrow>
        ?key p = remote_path @ ''/'' @ fspath (drop (length local_folder) p)"
  proof (intro allI impI)
    fix p
    assume a: "p \<in> fst ` set (fs w) \<and> strict_prefix local_folder p \<and>
          remote_path \<noteq> [] \<and> last remote_path \<noteq> CHR ''/''"
    then have "\<forall>c\<in>set p. valid_name c" using well_formed_names[OF wf] by blast
    with a show "?key p = remote_path @ ''/'' @ fspath (drop (length local_folder) p)"
      by (intro remote_key_plain) simp_all
  qed
  show ?thesis
    using run c1 c2 c3 c4 c5 by blast
qed

text \<open>
  C2, as stated, fails: \<open>src/noext\<close> and \<open>src/sub/Makefile\<close> are regular files under the
  folder, yet the call returns with only \<open>out/a.txt\<close> in the bucket and with no transfer
  attempt for the other two.
\<close>

theorem upload_folder_skips_dotless:
  "file_at (fs dotless_world) [''src'', ''noext''] = Some ''N'' \<and>
   file_at (fs dotless_world) [''src'', ''sub'', ''Makefile''] = Some ''M'' \<and>
   fst (upload_folder ''test'' ''out'' [''src''] dotless_world) = Inr () \<and>
   buckets (snd (upload_folder ''test'' ''out'' [''src''] dotless_world)) ''test'' =
     [(''out/a.txt'', ''A'')] \<and>
   calls (snd (upload_folder ''test'' ''out'' [''src''] dotless_world)) =
     [Upload ''test'' ''out/a.txt'' [''src'', ''a.txt'']]"
  by code_simp

text \<open>The amended statement at the folder of the counterexample.\<close>

theorem upload_folder_dotted_witness:
  "get_storage_bucket ''test'' dotless_world = Inr ''test'' \<and>
   well_formed (fs dotless_world) \<and>
   (\<forall>op k. \<not> flaky dotless_world op k) \<and>
   file_at (fs dotless_world) [''src'', ''a.txt''] = Some ''A'' \<and>
   dotted_below [''src''] [''src'', ''a.txt''] \<and>
   \<not> dotted_below [''src''] [''src'', ''noext''] \<and>
   (\<exists>w'. upload_folder ''test'' ''out'' [''src''] dotless_world = (Inr (), w') \<and>
      map_of (buckets w' ''test'') (remote_key ''out'' [''src''] [''src'', ''a.txt'']) = Some ''A'' \<and>
      count_list (calls w') (Upload ''test'' ''out/noext'' [''src'', ''noext'']) =
      count_list (calls dotless_world) (Upload ''test'' ''out/noext'' [''src'', ''noext'']))"
proof -
  have h1: "get_storage_bucket ''test'' dotless_world = Inr ''test''"
    by (simp add: get_storage_bucket_def)
  have h2: "well_formed (fs dotless_world)" by code_simp
  have h3: "\<forall>op k. \<not> flaky dotless_world op k"
    by (simp add: dotless_world_def quiet_world_def)
  have h4: "file_at (fs dotless_world) [''src'', ''a.txt''] = Some ''A''" by code_simp
  have h5: "dotted_below [''src''] [''src'', ''a.txt'']" by code_simp
  have h6: "\<not> dotted_below [''src''] [''src'', ''noext'']" by code_simp
  from upload_folder_dotted[OF h1 h2 h3, of "''out''" "[''src'']"] h4 h5 h6
  have "\<exists>w'. upload_folder ''test'' ''out'' [''src''] dotless_world = (Inr (), w') \<and>
      map_of (buckets w' ''test'') (remote_key ''out'' [''src''] [''src'', ''a.txt'']) = Some ''A'' \<and>
      count_list (calls w') (Upload ''test'' ''out/noext'' [''src'', ''noext'']) =
      count_list (calls dotless_world) (Upload ''test'' ''out/noext'' [''src'', ''noext''])"
    by blast
  with h1 h2 h3 h4 h5 h6 show ?thesis by blast
qed

section \<open>What a table update uploads\<close>







section \<open>The workspace of a stage\<close>






lemma with_TemporaryDirectory_run:
  assumes "with_TemporaryDirectory body w = (r, w')"
  obtains v' where
    "body [fresh_name (fs w)] (w\<lparr>fs := fs w @ [([fresh_name (fs w)], Dir)]\<rparr>) = (r, v')"
    "w' = v'\<lparr>fs := rmtree [fresh_name (fs w)] (fs v')\<rparr>"
  using assms by (auto simp: with_TemporaryDirectory_def Let_def split: prod.splits)



section \<open>Table updates share their keys\<close>




section \<open>The cache stage\<close>








lemma fspath_two: "fspath [a, b] = a @ ''/'' @ b"
  by simp






section \<open>The cache stage when fetches fail\<close>





end
